theory Spec2Isabelle
  imports Main "HOL-Library.Word" "HOL-Library.Sublist"
begin

section \<open>The state-communication channel of scc.go\<close>

text \<open>
  The Go package keeps one struct \<^verbatim>\<open>SCChan\<close> per channel and hands out pointers to it:
  \<^verbatim>\<open>NewSCChan\<close> returns \<^verbatim>\<open>*SCChan\<close>, and the two interface structs each hold such a
  pointer in their field \<^verbatim>\<open>underlyingChan\<close>. The follower writes through its pointer and
  the master reads through its own, so the model keeps an explicit store: one list of
  cells per struct type, a non-nil pointer being an index into the list of its type and
  \<^verbatim>\<open>nil\<close> being \<open>None\<close>. Dereferencing \<^verbatim>\<open>nil\<close> panics in Go; that is the error value
  \<open>NilDereference\<close>.
\<close>

subsection \<open>Constants and structs\<close>

type_synonym byte = "8 word"

definition UnableToStart :: byte where
  "UnableToStart = 0"

definition NowActive :: byte where
  "NowActive = 1"

definition Failed :: byte where
  "Failed = 2"

definition NowDead :: byte where
  "NowDead = 3"

record SCChan =
  followerState :: byte
  additionalInfo :: string

type_synonym ptr = "nat option"

record SCCMInterface =
  underlyingChan :: ptr

record SCCFInterface =
  underlyingChan :: ptr

subsection \<open>The store\<close>

record store =
  chans :: "SCChan list"
  mInts :: "SCCMInterface list"
  fInts :: "SCCFInterface list"

definition empty_store :: store where
  "empty_store = \<lparr>chans = [], mInts = [], fInts = []\<rparr>"

text \<open>
  Go is memory safe: a non-nil pointer always refers to a live cell. The model's pointers
  are plain indices, so an index past the end of its list is given an error value of its
  own, \<open>InvalidAddress\<close>, which no Go program can observe.
\<close>

datatype error = NilDereference | InvalidAddress

definition load :: "'a list \<Rightarrow> ptr \<Rightarrow> error + 'a" where
  "load cells p =
     (case p of
        None \<Rightarrow> Inl NilDereference
      | Some a \<Rightarrow> if a < length cells then Inr (cells ! a) else Inl InvalidAddress)"

definition modify :: "'a list \<Rightarrow> ptr \<Rightarrow> ('a \<Rightarrow> 'a) \<Rightarrow> error + 'a list" where
  "modify cells p f =
     (case p of
        None \<Rightarrow> Inl NilDereference
      | Some a \<Rightarrow>
          if a < length cells then Inr (cells[a := f (cells ! a)]) else Inl InvalidAddress)"

subsection \<open>The functions of the package\<close>

text \<open>\<^verbatim>\<open>return &SCChan {}\<close>: a new cell holding the zero value of the struct.\<close>

definition NewSCChan :: "store \<Rightarrow> ptr \<times> store" where
  "NewSCChan s =
     (Some (length (chans s)),
      s\<lparr>chans := chans s @ [\<lparr>followerState = 0, additionalInfo = []\<rparr>]\<rparr>)"

text \<open>
  \<^verbatim>\<open>return &SCCMInterface {scChan}\<close>: a new interface cell that stores the receiver. The
  receiver is not dereferenced, so a \<^verbatim>\<open>nil\<close> receiver does not panic here.
\<close>

definition MInterface :: "ptr \<Rightarrow> store \<Rightarrow> ptr \<times> store" where
  "MInterface scChan s =
     (Some (length (mInts s)),
      s\<lparr>mInts := mInts s @ [\<lparr>SCCMInterface.underlyingChan = scChan\<rparr>]\<rparr>)"

definition FInterface :: "ptr \<Rightarrow> store \<Rightarrow> ptr \<times> store" where
  "FInterface scChan s =
     (Some (length (fInts s)),
      s\<lparr>fInts := fInts s @ [\<lparr>SCCFInterface.underlyingChan = scChan\<rparr>]\<rparr>)"

text \<open>
  \<^verbatim>\<open>return mInt.underlyingChan.followerState, mInt.underlyingChan.additionalInfo\<close>.
  The store is returned next to the pair, so that what the call does to the store can be
  stated.
\<close>

definition WhatsUp :: "ptr \<Rightarrow> store \<Rightarrow> error + ((byte \<times> string) \<times> store)" where
  "WhatsUp mInt s =
     (case load (mInts s) mInt of
        Inl e \<Rightarrow> Inl e
      | Inr m \<Rightarrow>
          (case load (chans s) (SCCMInterface.underlyingChan m) of
             Inl e \<Rightarrow> Inl e
           | Inr c \<Rightarrow> Inr ((followerState c, additionalInfo c), s)))"

text \<open>
  The two statements of \<^verbatim>\<open>State\<close>, in order:
  \<^verbatim>\<open>fInt.underlyingChan.followerState = UnableToStart\<close>, then, when
  \<^verbatim>\<open>len (additionalInfo) > 0\<close>,
  \<^verbatim>\<open>fInt.underlyingChan.additionalInfo = additionalInfo [0]\<close>. The variadic parameter is
  the list \<open>info\<close>; the parameter \<open>state\<close> is not read by the body.
\<close>

definition State :: "ptr \<Rightarrow> byte \<Rightarrow> string list \<Rightarrow> store \<Rightarrow> error + store" where
  "State fInt state info s =
     (case load (fInts s) fInt of
        Inl e \<Rightarrow> Inl e
      | Inr f \<Rightarrow>
          (case modify (chans s) (SCCFInterface.underlyingChan f)
                  (\<lambda>c. c\<lparr>followerState := UnableToStart\<rparr>) of
             Inl e \<Rightarrow> Inl e
           | Inr cs1 \<Rightarrow>
               if length info > 0 then
                 (case modify cs1 (SCCFInterface.underlyingChan f)
                         (\<lambda>c. c\<lparr>additionalInfo := info ! 0\<rparr>) of
                    Inl e \<Rightarrow> Inl e
                  | Inr cs2 \<Rightarrow> Inr (s\<lparr>chans := cs2\<rparr>))
               else Inr (s\<lparr>chans := cs1\<rparr>)))"

subsection \<open>Client programs\<close>

text \<open>
  A client of the package can only call its five functions, in any order and with any
  arguments. \<open>run\<close> executes such a sequence of calls and stops at the first panic.
\<close>

datatype call =
    CallNewSCChan
  | CallMInterface ptr
  | CallFInterface ptr
  | CallWhatsUp ptr
  | CallState ptr byte "string list"

fun exec :: "call \<Rightarrow> store \<Rightarrow> error + store" where
  "exec CallNewSCChan s = Inr (snd (NewSCChan s))"
| "exec (CallMInterface scChan) s = Inr (snd (MInterface scChan s))"
| "exec (CallFInterface scChan) s = Inr (snd (FInterface scChan s))"
| "exec (CallWhatsUp mInt) s =
     (case WhatsUp mInt s of Inl e \<Rightarrow> Inl e | Inr (r, s') \<Rightarrow> Inr s')"
| "exec (CallState fInt state info) s = State fInt state info s"

fun run :: "call list \<Rightarrow> store \<Rightarrow> error + store" where
  "run [] s = Inr s"
| "run (c # cs) s = (case exec c s of Inl e \<Rightarrow> Inl e | Inr s' \<Rightarrow> run cs s')"

text \<open>
  Two ways of looking at a call: \<open>reports\<close> holds of the calls of \<^verbatim>\<open>State\<close>, and
  \<open>describes\<close> of those that pass at least one description argument.
\<close>

fun reports :: "call \<Rightarrow> bool" where
  "reports (CallState fInt state info) = True"
| "reports c = False"

fun describes :: "call \<Rightarrow> bool" where
  "describes (CallState fInt state info) = (length info > 0)"
| "describes c = False"

text \<open>Two calls of \<^verbatim>\<open>WhatsUp\<close> in a row on one master interface, with both results.\<close>

definition WhatsUp_twice ::
  "ptr \<Rightarrow> store \<Rightarrow> error + ((byte \<times> string) \<times> (byte \<times> string) \<times> store)" where
  "WhatsUp_twice mInt s =
     (case WhatsUp mInt s of
        Inl e \<Rightarrow> Inl e
      | Inr (r1, s1) \<Rightarrow>
          (case WhatsUp mInt s1 of
             Inl e \<Rightarrow> Inl e
           | Inr (r2, s2) \<Rightarrow> Inr (r1, r2, s2)))"

text \<open>The state field of every record of the store is \<^verbatim>\<open>UnableToStart\<close>.\<close>

definition all_unable :: "store \<Rightarrow> bool" where
  "all_unable s = list_all (\<lambda>c. followerState c = UnableToStart) (chans s)"

text \<open>
  The store of a small client, used to evaluate the functions on concrete inputs:
  \<^verbatim>\<open>scc := NewSCChan (); m := scc.MInterface (); f := scc.FInterface ()\<close>. In it
  \<open>scc\<close>, \<open>m\<close> and \<open>f\<close> are each the pointer \<open>Some 0\<close> to the first cell of their type.
\<close>

definition client_store :: store where
  "client_store =
     snd (FInterface (Some 0) (snd (MInterface (Some 0) (snd (NewSCChan empty_store)))))"

text \<open>
  Further stores for concrete inputs. \<open>fresh_store\<close> is the store right after
  \<^verbatim>\<open>scc := NewSCChan ()\<close>; \<open>two_masters_store\<close> is \<open>client_store\<close> after a second
  \<^verbatim>\<open>scc.MInterface ()\<close>, whose result is the pointer \<open>Some 1\<close>; \<open>reported_store\<close> is a store
  of the same shape as \<open>client_store\<close> whose record holds a state and a description
  other than the zero values.
\<close>

definition fresh_store :: store where
  "fresh_store = snd (NewSCChan empty_store)"

definition two_masters_store :: store where
  "two_masters_store = snd (MInterface (Some 0) client_store)"

definition reported_store :: store where
  "reported_store =
     \<lparr>chans = [\<lparr>followerState = NowActive, additionalInfo = ''up''\<rparr>],
      mInts = [\<lparr>SCCMInterface.underlyingChan = Some 0\<rparr>],
      fInts = [\<lparr>SCCFInterface.underlyingChan = Some 0\<rparr>]\<rparr>"


section \<open>Helper lemmas\<close>

subsection \<open>The concrete stores\<close>

lemma client_store_eq:
  "client_store =
     \<lparr>chans = [\<lparr>followerState = 0, additionalInfo = []\<rparr>],
      mInts = [\<lparr>SCCMInterface.underlyingChan = Some 0\<rparr>],
      fInts = [\<lparr>SCCFInterface.underlyingChan = Some 0\<rparr>]\<rparr>"
  by (simp add: client_store_def NewSCChan_def MInterface_def FInterface_def empty_store_def)

lemma fresh_store_eq:
  "fresh_store = \<lparr>chans = [\<lparr>followerState = 0, additionalInfo = []\<rparr>], mInts = [], fInts = []\<rparr>"
  by (simp add: fresh_store_def NewSCChan_def empty_store_def)

lemma two_masters_store_eq:
  "two_masters_store =
     \<lparr>chans = [\<lparr>followerState = 0, additionalInfo = []\<rparr>],
      mInts = [\<lparr>SCCMInterface.underlyingChan = Some 0\<rparr>,
               \<lparr>SCCMInterface.underlyingChan = Some 0\<rparr>],
      fInts = [\<lparr>SCCFInterface.underlyingChan = Some 0\<rparr>]\<rparr>"
  by (simp add: two_masters_store_def client_store_eq MInterface_def)

subsection \<open>Pointers and the two functions that use them\<close>

lemma load_InrD:
  "load cells p = Inr x \<Longrightarrow> \<exists>a. p = Some a \<and> a < length cells \<and> cells ! a = x"
  by (auto simp: load_def split: option.splits if_splits)

lemma load_prefix: "prefix xs ys \<Longrightarrow> load xs p = Inr x \<Longrightarrow> load ys p = Inr x"
  by (auto simp: load_def prefix_def nth_append split: option.splits if_splits)

lemma State_bound:
  assumes "load (fInts s) fInt = Inr f"
    and "SCCFInterface.underlyingChan f = Some a"
    and "a < length (chans s)"
  shows "State fInt state info s =
           Inr (s\<lparr>chans := (chans s)[a :=
                  (case info of
                     [] \<Rightarrow> (chans s ! a)\<lparr>followerState := UnableToStart\<rparr>
                   | d # _ \<Rightarrow> (chans s ! a)\<lparr>followerState := UnableToStart,
                                              additionalInfo := d\<rparr>)]\<rparr>)"
  using assms by (cases info) (simp_all add: State_def modify_def)

lemma State_InrD:
  assumes "State fInt state info s = Inr s'"
  shows "\<exists>f a. load (fInts s) fInt = Inr f \<and> SCCFInterface.underlyingChan f = Some a
            \<and> a < length (chans s)"
  using assms
  by (auto simp: State_def modify_def split: sum.splits option.splits if_splits)

lemma State_chans:
  assumes "State fInt state info s = Inr s'"
  obtains a where "a < length (chans s)"
    and "s' = s\<lparr>chans := (chans s)[a :=
                  (case info of
                     [] \<Rightarrow> (chans s ! a)\<lparr>followerState := UnableToStart\<rparr>
                   | d # _ \<Rightarrow> (chans s ! a)\<lparr>followerState := UnableToStart,
                                              additionalInfo := d\<rparr>)]\<rparr>"
proof -
  from State_InrD [OF assms] obtain f a where
    h: "load (fInts s) fInt = Inr f" "SCCFInterface.underlyingChan f = Some a"
       "a < length (chans s)"
    by blast
  from State_bound [OF h, of state info] assms that h(3) show thesis by simp
qed

lemma WhatsUp_store: "WhatsUp mInt s = Inr (r, s') \<Longrightarrow> s' = s"
  by (auto simp: WhatsUp_def split: sum.splits)

lemma exec_WhatsUp_store: "exec (CallWhatsUp mInt) s = Inr s' \<Longrightarrow> s' = s"
  by (auto split: sum.splits dest: WhatsUp_store)

lemma exec_frame:
  assumes "exec c s = Inr s'"
  shows "length (chans s) \<le> length (chans s') \<and> prefix (mInts s) (mInts s')
           \<and> prefix (fInts s) (fInts s')"
proof (cases c)
  case (CallState fInt state info)
  with assms have "State fInt state info s = Inr s'" by simp
  then show ?thesis by (rule State_chans) simp
next
  case (CallWhatsUp mInt)
  from assms(1) have "s' = s" unfolding CallWhatsUp by (rule exec_WhatsUp_store)
  with assms show ?thesis by simp
qed (use assms in \<open>auto simp: NewSCChan_def MInterface_def FInterface_def\<close>)

lemma run_frame:
  assumes "run cs s = Inr s'"
  shows "length (chans s) \<le> length (chans s') \<and> prefix (mInts s) (mInts s')
           \<and> prefix (fInts s) (fInts s')"
  using assms
proof (induction cs arbitrary: s)
  case Nil
  then show ?case by simp
next
  case (Cons c cs)
  then obtain s1 where e: "exec c s = Inr s1" and r: "run cs s1 = Inr s'"
    by (auto split: sum.splits)
  from exec_frame [OF e] Cons.IH [OF r] show ?case
    by (auto intro: prefix_order.trans)
qed

subsection \<open>The state field of every record\<close>

lemma exec_all_unable:
  assumes "exec c s = Inr s'" and "all_unable s"
  shows "all_unable s'"
proof (cases c)
  case (CallState fInt state info)
  with assms have "State fInt state info s = Inr s'" by simp
  then show ?thesis
  proof (rule State_chans)
    fix a
    assume "a < length (chans s)" and
      "s' = s\<lparr>chans := (chans s)[a :=
                  (case info of
                     [] \<Rightarrow> (chans s ! a)\<lparr>followerState := UnableToStart\<rparr>
                   | d # _ \<Rightarrow> (chans s ! a)\<lparr>followerState := UnableToStart,
                                              additionalInfo := d\<rparr>)]\<rparr>"
    with assms(2) show ?thesis
      by (auto simp: all_unable_def list_all_iff split: list.splits
               dest!: set_update_subset_insert [THEN subsetD])
  qed
next
  case (CallWhatsUp mInt)
  from assms(1) have "s' = s" unfolding CallWhatsUp by (rule exec_WhatsUp_store)
  with assms show ?thesis by simp
next
  case CallNewSCChan
  with assms show ?thesis by (auto simp: NewSCChan_def all_unable_def UnableToStart_def)
qed (use assms in \<open>auto simp: MInterface_def FInterface_def all_unable_def\<close>)

lemma run_all_unable:
  assumes "run cs s = Inr s'" and "all_unable s"
  shows "all_unable s'"
  using assms
proof (induction cs arbitrary: s)
  case Nil
  then show ?case by simp
next
  case (Cons c cs)
  then obtain s1 where e: "exec c s = Inr s1" and r: "run cs s1 = Inr s'"
    by (auto split: sum.splits)
  from exec_all_unable [OF e Cons.prems(2)] have "all_unable s1" .
  from Cons.IH [OF r this] show ?case .
qed

lemma empty_all_unable: "all_unable empty_store"
  by (simp add: all_unable_def empty_store_def)

subsection \<open>What a call leaves in place\<close>

lemma exec_quiet_cell:
  assumes "exec c s = Inr s'" and "\<not> reports c" and "a < length (chans s)"
  shows "chans s' ! a = chans s ! a"
proof (cases c)
  case (CallWhatsUp mInt)
  from assms(1) have "s' = s" unfolding CallWhatsUp by (rule exec_WhatsUp_store)
  with assms show ?thesis by simp
qed (use assms in \<open>auto simp: NewSCChan_def MInterface_def FInterface_def nth_append\<close>)

lemma exec_info_cell:
  assumes "exec c s = Inr s'" and "\<not> describes c" and "a < length (chans s)"
  shows "additionalInfo (chans s' ! a) = additionalInfo (chans s ! a)"
proof (cases c)
  case (CallState fInt state info)
  with assms have st: "State fInt state [] s = Inr s'" and "info = []" by simp_all
  from st show ?thesis
    by (rule State_chans) (use assms(3) in \<open>auto simp: nth_list_update\<close>)
next
  case (CallWhatsUp mInt)
  from assms(1) have "s' = s" unfolding CallWhatsUp by (rule exec_WhatsUp_store)
  with assms show ?thesis by simp
qed (use assms in \<open>auto simp: NewSCChan_def MInterface_def FInterface_def nth_append\<close>)

lemma run_quiet_cell:
  assumes "run cs s = Inr s'" and "\<forall>c\<in>set cs. \<not> reports c" and "a < length (chans s)"
  shows "chans s' ! a = chans s ! a"
  using assms
proof (induction cs arbitrary: s)
  case Nil
  then show ?case by simp
next
  case (Cons c cs)
  then obtain s1 where e: "exec c s = Inr s1" and r: "run cs s1 = Inr s'"
    by (auto split: sum.splits)
  from exec_frame [OF e] Cons.prems(3) have a1: "a < length (chans s1)" by simp
  from exec_quiet_cell [OF e _ Cons.prems(3)] Cons.prems(2)
  have "chans s1 ! a = chans s ! a" by simp
  moreover from Cons.IH [OF r _ a1] Cons.prems(2) have "chans s' ! a = chans s1 ! a" by simp
  ultimately show ?case by simp
qed

lemma run_info_cell:
  assumes "run cs s = Inr s'" and "\<forall>c\<in>set cs. \<not> describes c" and "a < length (chans s)"
  shows "additionalInfo (chans s' ! a) = additionalInfo (chans s ! a)"
  using assms
proof (induction cs arbitrary: s)
  case Nil
  then show ?case by simp
next
  case (Cons c cs)
  then obtain s1 where e: "exec c s = Inr s1" and r: "run cs s1 = Inr s'"
    by (auto split: sum.splits)
  from exec_frame [OF e] Cons.prems(3) have a1: "a < length (chans s1)" by simp
  from exec_info_cell [OF e _ Cons.prems(3)] Cons.prems(2)
  have "additionalInfo (chans s1 ! a) = additionalInfo (chans s ! a)" by simp
  moreover from Cons.IH [OF r _ a1] Cons.prems(2)
  have "additionalInfo (chans s' ! a) = additionalInfo (chans s1 ! a)" by simp
  ultimately show ?case by simp
qed

section \<open>Properties\<close>

subsection \<open>What a report does to the record\<close>

text \<open>
  C1. After \<^verbatim>\<open>State (s, d)\<close> a query should return the pair \<open>(s, d)\<close>: the comments of
  \<^verbatim>\<open>State\<close> and \<^verbatim>\<open>WhatsUp\<close> say that input 0 of the one and output 0 of the other are the
  state of the follower. The body of \<^verbatim>\<open>State\<close> writes the constant instead of its
  parameter. For the client \<^verbatim>\<open>f.State (NowActive, "started"); m.WhatsUp ()\<close> on
  \<open>client_store\<close>, the report leaves \<^verbatim>\<open>UnableToStart\<close> in the state field and the query
  returns \<open>(UnableToStart, ''started'')\<close>, which is not \<open>(NowActive, ''started'')\<close>.
\<close>

theorem State_NowActive_WhatsUp_UnableToStart:
  "State (Some 0) NowActive [''started''] client_store
     = Inr (client_store\<lparr>chans :=
              [\<lparr>followerState = UnableToStart, additionalInfo = ''started''\<rparr>]\<rparr>)
   \<and> WhatsUp (Some 0) (client_store\<lparr>chans :=
              [\<lparr>followerState = UnableToStart, additionalInfo = ''started''\<rparr>]\<rparr>)
     = Inr ((UnableToStart, ''started''),
            client_store\<lparr>chans :=
              [\<lparr>followerState = UnableToStart, additionalInfo = ''started''\<rparr>]\<rparr>)
   \<and> (UnableToStart, ''started'') \<noteq> (NowActive, ''started'')"
  by (simp add: client_store_eq State_def WhatsUp_def load_def modify_def
        UnableToStart_def NowActive_def)

text \<open>
  C2. For every state code and every list of description arguments, empty or not, a call
  of \<^verbatim>\<open>State\<close> through a follower interface bound to a record returns, and the state field
  of that record is \<^verbatim>\<open>UnableToStart\<close> afterwards, whatever the state code was.
\<close>

theorem State_stores_UnableToStart:
  assumes "load (fInts s) fInt = Inr f"
    and "load (chans s) (SCCFInterface.underlyingChan f) = Inr c"
  shows "\<exists>s' c'. State fInt state info s = Inr s'
           \<and> load (chans s') (SCCFInterface.underlyingChan f) = Inr c'
           \<and> followerState c' = UnableToStart"
proof -
  from load_InrD [OF assms(2)] obtain a where
    a: "SCCFInterface.underlyingChan f = Some a" "a < length (chans s)"
    by blast
  from State_bound [OF assms(1) a, of state info] a show ?thesis
    by (cases info) (simp_all add: load_def)
qed

text \<open>
  The record of \<open>reported_store\<close> holds \<^verbatim>\<open>NowActive\<close>; reporting \<^verbatim>\<open>NowDead\<close> with no
  description leaves \<^verbatim>\<open>UnableToStart\<close> in it.
\<close>

theorem State_stores_UnableToStart_witness:
  "load (fInts reported_store) (Some 0) = Inr \<lparr>SCCFInterface.underlyingChan = Some 0\<rparr>
   \<and> load (chans reported_store) (Some 0)
     = Inr \<lparr>followerState = NowActive, additionalInfo = ''up''\<rparr>
   \<and> (\<exists>s' c'. State (Some 0) NowDead [] reported_store = Inr s'
           \<and> load (chans s') (Some 0) = Inr c'
           \<and> followerState c' = UnableToStart)"
proof -
  let ?f = "\<lparr>SCCFInterface.underlyingChan = Some 0\<rparr>"
  have h1: "load (fInts reported_store) (Some 0) = Inr ?f"
    by (simp add: reported_store_def load_def)
  have h2: "load (chans reported_store) (SCCFInterface.underlyingChan ?f)
            = Inr \<lparr>followerState = NowActive, additionalInfo = ''up''\<rparr>"
    by (simp add: reported_store_def load_def)
  from State_stores_UnableToStart [OF h1 h2, of NowDead "[]"] h1 h2 show ?thesis by simp
qed

text \<open>
  C4. When \<^verbatim>\<open>State\<close> is called with a description \<open>d\<close> (and possibly more arguments after
  it) and returns, the description field of the follower's record is \<open>d\<close>; and after any
  further calls of the package among which no \<^verbatim>\<open>State\<close> passes a description, a query
  through a master interface bound to the same record returns \<open>d\<close> as its second
  component.
\<close>

theorem State_description_kept:
  assumes "load (fInts s) fInt = Inr f"
    and "State fInt state (d # rest) s = Inr s1"
    and "run cs s1 = Inr s2"
    and "\<forall>c\<in>set cs. \<not> describes c"
    and "load (mInts s2) mInt = Inr m"
    and "SCCMInterface.underlyingChan m = SCCFInterface.underlyingChan f"
  shows "(\<exists>c. load (chans s1) (SCCFInterface.underlyingChan f) = Inr c \<and> additionalInfo c = d)
         \<and> (\<exists>st. WhatsUp mInt s2 = Inr ((st, d), s2))"
proof -
  from State_InrD [OF assms(2)] assms(1) obtain a where
    a: "SCCFInterface.underlyingChan f = Some a" "a < length (chans s)"
    by auto
  from State_bound [OF assms(1) a, of state "d # rest"] assms(2)
  have s1: "s1 = s\<lparr>chans := (chans s)[a := (chans s ! a)\<lparr>followerState := UnableToStart,
                                                      additionalInfo := d\<rparr>]\<rparr>"
    by simp
  with a(2) have a1: "a < length (chans s1)" and d1: "additionalInfo (chans s1 ! a) = d"
    by simp_all
  from run_frame [OF assms(3)] a1 have a2: "a < length (chans s2)" by simp
  from run_info_cell [OF assms(3,4) a1] d1 have d2: "additionalInfo (chans s2 ! a) = d"
    by simp
  from a(1) a1 d1 have "\<exists>c. load (chans s1) (SCCFInterface.underlyingChan f) = Inr c
      \<and> additionalInfo c = d"
    by (simp add: load_def)
  moreover from assms(5,6) a(1) a2 d2 have "\<exists>st. WhatsUp mInt s2 = Inr ((st, d), s2)"
    by (simp add: WhatsUp_def load_def)
  ultimately show ?thesis by simp
qed

text \<open>
  The scenario of the package's description: the follower reports
  \<^verbatim>\<open>(Failed, "disk full")\<close> (here with one more argument), then \<^verbatim>\<open>NowDead\<close> with no
  description, and the master queries.
\<close>

theorem State_description_kept_witness:
  "load (fInts reported_store) (Some 0) = Inr \<lparr>SCCFInterface.underlyingChan = Some 0\<rparr>
   \<and> State (Some 0) Failed [''disk full'', ''ignored''] reported_store
     = Inr (reported_store\<lparr>chans :=
              [\<lparr>followerState = UnableToStart, additionalInfo = ''disk full''\<rparr>]\<rparr>)
   \<and> run [CallState (Some 0) NowDead [], CallWhatsUp (Some 0)]
        (reported_store\<lparr>chans :=
              [\<lparr>followerState = UnableToStart, additionalInfo = ''disk full''\<rparr>]\<rparr>)
     = Inr (reported_store\<lparr>chans :=
              [\<lparr>followerState = UnableToStart, additionalInfo = ''disk full''\<rparr>]\<rparr>)
   \<and> \<not> describes (CallState (Some 0) NowDead []) \<and> \<not> describes (CallWhatsUp (Some 0))
   \<and> load (mInts (reported_store\<lparr>chans :=
              [\<lparr>followerState = UnableToStart, additionalInfo = ''disk full''\<rparr>]\<rparr>)) (Some 0)
     = Inr \<lparr>SCCMInterface.underlyingChan = Some 0\<rparr>
   \<and> (\<exists>c. load (chans (reported_store\<lparr>chans :=
              [\<lparr>followerState = UnableToStart, additionalInfo = ''disk full''\<rparr>]\<rparr>)) (Some 0)
            = Inr c \<and> additionalInfo c = ''disk full'')
   \<and> (\<exists>st. WhatsUp (Some 0) (reported_store\<lparr>chans :=
              [\<lparr>followerState = UnableToStart, additionalInfo = ''disk full''\<rparr>]\<rparr>)
            = Inr ((st, ''disk full''), reported_store\<lparr>chans :=
              [\<lparr>followerState = UnableToStart, additionalInfo = ''disk full''\<rparr>]\<rparr>))"
proof -
  let ?f = "\<lparr>SCCFInterface.underlyingChan = Some 0\<rparr>"
  let ?m = "\<lparr>SCCMInterface.underlyingChan = Some 0\<rparr>"
  let ?s1 = "reported_store\<lparr>chans :=
              [\<lparr>followerState = UnableToStart, additionalInfo = ''disk full''\<rparr>]\<rparr>"
  let ?cs = "[CallState (Some 0) NowDead [], CallWhatsUp (Some 0)]"
  have h1: "load (fInts reported_store) (Some 0) = Inr ?f"
    by (simp add: reported_store_def load_def)
  have h2: "State (Some 0) Failed [''disk full'', ''ignored''] reported_store = Inr ?s1"
    by (simp add: reported_store_def State_def load_def modify_def)
  have h3: "run ?cs ?s1 = Inr ?s1"
    by (simp add: reported_store_def State_def WhatsUp_def load_def modify_def)
  have h4: "\<forall>c\<in>set ?cs. \<not> describes c" by simp
  have h5: "load (mInts ?s1) (Some 0) = Inr ?m"
    by (simp add: reported_store_def load_def)
  have h6: "SCCMInterface.underlyingChan ?m = SCCFInterface.underlyingChan ?f" by simp
  from State_description_kept [OF h1 h2 h3 h4 h5 h6] h1 h2 h3 h5 show ?thesis by simp
qed

text \<open>
  C5. A call of \<^verbatim>\<open>State\<close> with no description argument, through a follower interface
  bound to a record, returns; the record it leaves is the old one with only the state
  field written, so the description is the one from before, empty or not; the interface
  cells and every other record are as before.
\<close>

theorem State_without_description:
  assumes "load (fInts s) fInt = Inr f"
    and "load (chans s) (SCCFInterface.underlyingChan f) = Inr c"
  shows "\<exists>s' c'. State fInt state [] s = Inr s'
           \<and> load (chans s') (SCCFInterface.underlyingChan f) = Inr c'
           \<and> additionalInfo c' = additionalInfo c
           \<and> c' = c\<lparr>followerState := UnableToStart\<rparr>
           \<and> mInts s' = mInts s \<and> fInts s' = fInts s
           \<and> (\<forall>p. p \<noteq> SCCFInterface.underlyingChan f
                  \<longrightarrow> load (chans s') p = load (chans s) p)"
proof -
  from load_InrD [OF assms(2)] obtain a where
    a: "SCCFInterface.underlyingChan f = Some a" "a < length (chans s)" "chans s ! a = c"
    by blast
  from State_bound [OF assms(1) a(1,2), of state "[]"] a show ?thesis
    by (auto simp: load_def split: option.splits)
qed

text \<open>A record with the description \<open>''up''\<close> keeps it when \<^verbatim>\<open>Failed\<close> is reported alone.\<close>

theorem State_without_description_witness:
  "load (fInts reported_store) (Some 0) = Inr \<lparr>SCCFInterface.underlyingChan = Some 0\<rparr>
   \<and> load (chans reported_store) (Some 0)
     = Inr \<lparr>followerState = NowActive, additionalInfo = ''up''\<rparr>
   \<and> (\<exists>s'. State (Some 0) Failed [] reported_store = Inr s'
         \<and> load (chans s') (Some 0)
           = Inr \<lparr>followerState = UnableToStart, additionalInfo = ''up''\<rparr>)"
proof -
  let ?f = "\<lparr>SCCFInterface.underlyingChan = Some 0\<rparr>"
  let ?c = "\<lparr>followerState = NowActive, additionalInfo = ''up''\<rparr>"
  have h1: "load (fInts reported_store) (Some 0) = Inr ?f"
    by (simp add: reported_store_def load_def)
  have h2: "load (chans reported_store) (SCCFInterface.underlyingChan ?f) = Inr ?c"
    by (simp add: reported_store_def load_def)
  from State_without_description [OF h1 h2, of Failed] obtain s' c' where
    "State (Some 0) Failed [] reported_store = Inr s'"
    and "load (chans s') (Some 0) = Inr c'"
    and "c' = ?c\<lparr>followerState := UnableToStart\<rparr>"
    by auto
  then have "\<exists>s'. State (Some 0) Failed [] reported_store = Inr s'
         \<and> load (chans s') (Some 0)
           = Inr \<lparr>followerState = UnableToStart, additionalInfo = ''up''\<rparr>"
    by auto
  with h1 h2 show ?thesis by simp
qed

text \<open>
  C6. Description arguments after the first are ignored: \<^verbatim>\<open>State (s, a, b, ...)\<close> leaves
  the store exactly as \<^verbatim>\<open>State (s, a)\<close> does, for every follower interface, every state
  code and every store (a call that panics does so in both forms).
\<close>

theorem State_excess_arguments_ignored:
  "State fInt state (a # rest) s = State fInt state [a] s"
  by (simp add: State_def cong: sum.case_cong)

subsection \<open>What a query returns\<close>

text \<open>
  C3. A record made by \<^verbatim>\<open>NewSCChan\<close> holds \<^verbatim>\<open>UnableToStart\<close> and the empty description;
  and as long as no \<^verbatim>\<open>State\<close> has been called (any other calls of the package may have
  been made), \<^verbatim>\<open>WhatsUp\<close> on a master interface obtained from the record returns the
  pair \<open>(UnableToStart, '''')\<close>.
\<close>

theorem NewSCChan_default:
  assumes "NewSCChan s = (scc, s1)"
    and "run cs s1 = Inr s2"
    and "\<forall>c\<in>set cs. \<not> reports c"
    and "MInterface scc s2 = (mInt, s3)"
  shows "load (chans s1) scc = Inr \<lparr>followerState = UnableToStart, additionalInfo = ''''\<rparr>
         \<and> WhatsUp mInt s3 = Inr ((UnableToStart, ''''), s3)"
proof -
  let ?a = "length (chans s)"
  from assms(1) have scc: "scc = Some ?a"
    and s1: "s1 = s\<lparr>chans := chans s @ [\<lparr>followerState = 0, additionalInfo = []\<rparr>]\<rparr>"
    by (auto simp: NewSCChan_def)
  from s1 have a1: "?a < length (chans s1)"
    and c1: "chans s1 ! ?a = \<lparr>followerState = UnableToStart, additionalInfo = ''''\<rparr>"
    by (simp_all add: UnableToStart_def)
  from run_frame [OF assms(2)] a1 have a2: "?a < length (chans s2)" by simp
  from run_quiet_cell [OF assms(2,3) a1] c1
  have c2: "chans s2 ! ?a = \<lparr>followerState = UnableToStart, additionalInfo = ''''\<rparr>" by simp
  from assms(4) have "mInt = Some (length (mInts s2))"
    and "s3 = s2\<lparr>mInts := mInts s2 @ [\<lparr>SCCMInterface.underlyingChan = scc\<rparr>]\<rparr>"
    by (auto simp: MInterface_def)
  with scc a2 c2 have "WhatsUp mInt s3 = Inr ((UnableToStart, ''''), s3)"
    by (simp add: WhatsUp_def load_def)
  moreover from scc a1 c1
  have "load (chans s1) scc = Inr \<lparr>followerState = UnableToStart, additionalInfo = ''''\<rparr>"
    by (simp add: load_def)
  ultimately show ?thesis by simp
qed

text \<open>
  The client \<^verbatim>\<open>scc := NewSCChan (); f := scc.FInterface (); m := scc.MInterface ();
  m.WhatsUp (); m2 := scc.MInterface (); m2.WhatsUp ()\<close>.
\<close>

theorem NewSCChan_default_witness:
  "NewSCChan empty_store = (Some 0, fresh_store)
   \<and> run [CallFInterface (Some 0), CallMInterface (Some 0), CallWhatsUp (Some 0)] fresh_store
     = Inr client_store
   \<and> \<not> reports (CallFInterface (Some 0)) \<and> \<not> reports (CallMInterface (Some 0))
   \<and> \<not> reports (CallWhatsUp (Some 0))
   \<and> MInterface (Some 0) client_store = (Some 1, two_masters_store)
   \<and> load (chans fresh_store) (Some 0)
     = Inr \<lparr>followerState = UnableToStart, additionalInfo = ''''\<rparr>
   \<and> WhatsUp (Some 1) two_masters_store = Inr ((UnableToStart, ''''), two_masters_store)"
proof -
  let ?cs = "[CallFInterface (Some 0), CallMInterface (Some 0), CallWhatsUp (Some 0)]"
  have h1: "NewSCChan empty_store = (Some 0, fresh_store)"
    by (simp add: fresh_store_def NewSCChan_def empty_store_def)
  have h2: "run ?cs fresh_store = Inr client_store"
    by (simp add: fresh_store_eq client_store_eq MInterface_def FInterface_def
          WhatsUp_def load_def)
  have h3: "\<forall>c\<in>set ?cs. \<not> reports c" by simp
  have h4: "MInterface (Some 0) client_store = (Some 1, two_masters_store)"
    by (simp add: two_masters_store_def client_store_eq MInterface_def)
  from NewSCChan_default [OF h1 h2 h3 h4] h1 h2 h4 show ?thesis by simp
qed

text \<open>
  C7. Two master interfaces obtained from one record by separate calls of
  \<^verbatim>\<open>MInterface\<close> are different handles, and after any calls of the package made between
  and after the two (reports through any follower interface among them) \<^verbatim>\<open>WhatsUp\<close>
  gives the same result through both.
\<close>

theorem MInterface_views_agree:
  assumes "MInterface scc s = (m1, s1)"
    and "run cs1 s1 = Inr s2"
    and "MInterface scc s2 = (m2, s3)"
    and "run cs2 s3 = Inr s4"
  shows "m1 \<noteq> m2 \<and> WhatsUp m1 s4 = WhatsUp m2 s4"
proof -
  let ?h = "\<lparr>SCCMInterface.underlyingChan = scc\<rparr>"
  from assms(1) have m1: "m1 = Some (length (mInts s))"
    and s1: "mInts s1 = mInts s @ [?h]"
    by (auto simp: MInterface_def)
  from assms(3) have m2: "m2 = Some (length (mInts s2))"
    and s3: "mInts s3 = mInts s2 @ [?h]"
    by (auto simp: MInterface_def)
  from run_frame [OF assms(2)] have p12: "prefix (mInts s1) (mInts s2)" by simp
  from run_frame [OF assms(4)] have p34: "prefix (mInts s3) (mInts s4)" by simp
  from s3 have p23: "prefix (mInts s2) (mInts s3)" by simp
  from m1 s1 have "load (mInts s1) m1 = Inr ?h" by (simp add: load_def)
  then have "load (mInts s2) m1 = Inr ?h" by (rule load_prefix [OF p12])
  then have "load (mInts s3) m1 = Inr ?h" by (rule load_prefix [OF p23])
  then have l1: "load (mInts s4) m1 = Inr ?h" by (rule load_prefix [OF p34])
  from m2 s3 have "load (mInts s3) m2 = Inr ?h" by (simp add: load_def)
  then have l2: "load (mInts s4) m2 = Inr ?h" by (rule load_prefix [OF p34])
  from l1 l2 have "WhatsUp m1 s4 = WhatsUp m2 s4" by (simp add: WhatsUp_def)
  moreover from prefix_length_le [OF p12] s1 m1 m2 have "m1 \<noteq> m2" by simp
  ultimately show ?thesis by simp
qed

text \<open>
  The client \<^verbatim>\<open>m1 := scc.MInterface (); f := scc.FInterface (); m2 := scc.MInterface ();
  f.State (Failed, "disk full")\<close> on \<open>fresh_store\<close>: both masters read the same pair.
\<close>

theorem MInterface_views_agree_witness:
  "MInterface (Some 0) fresh_store
     = (Some 0, fresh_store\<lparr>mInts := [\<lparr>SCCMInterface.underlyingChan = Some 0\<rparr>]\<rparr>)
   \<and> run [CallFInterface (Some 0)]
        (fresh_store\<lparr>mInts := [\<lparr>SCCMInterface.underlyingChan = Some 0\<rparr>]\<rparr>)
     = Inr client_store
   \<and> MInterface (Some 0) client_store = (Some 1, two_masters_store)
   \<and> run [CallState (Some 0) Failed [''disk full'']] two_masters_store
     = Inr (two_masters_store\<lparr>chans :=
              [\<lparr>followerState = UnableToStart, additionalInfo = ''disk full''\<rparr>]\<rparr>)
   \<and> Some (0::nat) \<noteq> Some 1
   \<and> WhatsUp (Some 0) (two_masters_store\<lparr>chans :=
              [\<lparr>followerState = UnableToStart, additionalInfo = ''disk full''\<rparr>]\<rparr>)
     = WhatsUp (Some 1) (two_masters_store\<lparr>chans :=
              [\<lparr>followerState = UnableToStart, additionalInfo = ''disk full''\<rparr>]\<rparr>)
   \<and> WhatsUp (Some 1) (two_masters_store\<lparr>chans :=
              [\<lparr>followerState = UnableToStart, additionalInfo = ''disk full''\<rparr>]\<rparr>)
     = Inr ((UnableToStart, ''disk full''), two_masters_store\<lparr>chans :=
              [\<lparr>followerState = UnableToStart, additionalInfo = ''disk full''\<rparr>]\<rparr>)"
proof -
  let ?s1 = "fresh_store\<lparr>mInts := [\<lparr>SCCMInterface.underlyingChan = Some 0\<rparr>]\<rparr>"
  let ?s4 = "two_masters_store\<lparr>chans :=
              [\<lparr>followerState = UnableToStart, additionalInfo = ''disk full''\<rparr>]\<rparr>"
  have h1: "MInterface (Some 0) fresh_store = (Some 0, ?s1)"
    by (simp add: fresh_store_eq MInterface_def)
  have h2: "run [CallFInterface (Some 0)] ?s1 = Inr client_store"
    by (simp add: fresh_store_eq client_store_eq FInterface_def)
  have h3: "MInterface (Some 0) client_store = (Some 1, two_masters_store)"
    by (simp add: two_masters_store_def client_store_eq MInterface_def)
  have h4: "run [CallState (Some 0) Failed [''disk full'']] two_masters_store = Inr ?s4"
    by (simp add: two_masters_store_eq State_def load_def modify_def)
  have r: "WhatsUp (Some 1) ?s4 = Inr ((UnableToStart, ''disk full''), ?s4)"
    by (simp add: two_masters_store_eq WhatsUp_def load_def)
  from MInterface_views_agree [OF h1 h2 h3 h4] h1 h2 h3 h4 r show ?thesis by simp
qed

text \<open>
  C9. \<^verbatim>\<open>WhatsUp\<close> through a master interface bound to a record returns the two fields of
  the record and the store it was given, unchanged; two calls in a row return the same
  pair twice and still the same store.
\<close>

theorem WhatsUp_pure_read:
  assumes "load (mInts s) mInt = Inr m"
    and "load (chans s) (SCCMInterface.underlyingChan m) = Inr c"
  shows "WhatsUp mInt s = Inr ((followerState c, additionalInfo c), s)
         \<and> WhatsUp_twice mInt s
             = Inr ((followerState c, additionalInfo c), (followerState c, additionalInfo c), s)"
  using assms by (simp add: WhatsUp_twice_def WhatsUp_def)

theorem WhatsUp_pure_read_witness:
  "load (mInts reported_store) (Some 0) = Inr \<lparr>SCCMInterface.underlyingChan = Some 0\<rparr>
   \<and> load (chans reported_store) (Some 0)
     = Inr \<lparr>followerState = NowActive, additionalInfo = ''up''\<rparr>
   \<and> WhatsUp (Some 0) reported_store = Inr ((NowActive, ''up''), reported_store)
   \<and> WhatsUp_twice (Some 0) reported_store
     = Inr ((NowActive, ''up''), (NowActive, ''up''), reported_store)"
proof -
  let ?m = "\<lparr>SCCMInterface.underlyingChan = Some 0\<rparr>"
  have h1: "load (mInts reported_store) (Some 0) = Inr ?m"
    by (simp add: reported_store_def load_def)
  have h2: "load (chans reported_store) (SCCMInterface.underlyingChan ?m)
            = Inr \<lparr>followerState = NowActive, additionalInfo = ''up''\<rparr>"
    by (simp add: reported_store_def load_def)
  from WhatsUp_pure_read [OF h1 h2] h1 h2 show ?thesis by simp
qed

subsection \<open>The records a client can reach\<close>

text \<open>
  C8. Whatever calls of the package a client has made since its start (the empty store),
  with any bytes as state codes, the state field of every record of the store is one of
  the four constants \<^verbatim>\<open>UnableToStart\<close>, \<^verbatim>\<open>NowActive\<close>, \<^verbatim>\<open>Failed\<close>, \<^verbatim>\<open>NowDead\<close>.
\<close>

theorem followerState_enumerated:
  assumes "run cs empty_store = Inr s" and "c \<in> set (chans s)"
  shows "followerState c \<in> {UnableToStart, NowActive, Failed, NowDead}"
proof -
  from run_all_unable [OF assms(1) empty_all_unable] assms(2)
  have "followerState c = UnableToStart" by (simp add: all_unable_def list_all_iff)
  then show ?thesis by simp
qed

text \<open>A client that reports the byte 200, which is none of the four constants.\<close>

theorem followerState_enumerated_witness:
  "run [CallNewSCChan, CallMInterface (Some 0), CallFInterface (Some 0),
        CallState (Some 0) 200 [''bye'']] empty_store
     = Inr (client_store\<lparr>chans := [\<lparr>followerState = 0, additionalInfo = ''bye''\<rparr>]\<rparr>)
   \<and> \<lparr>followerState = 0, additionalInfo = ''bye''\<rparr>
       \<in> set (chans (client_store\<lparr>chans := [\<lparr>followerState = 0, additionalInfo = ''bye''\<rparr>]\<rparr>))
   \<and> followerState \<lparr>followerState = 0, additionalInfo = ''bye''\<rparr>
       \<in> {UnableToStart, NowActive, Failed, NowDead}"
proof -
  let ?c = "\<lparr>followerState = 0, additionalInfo = ''bye''\<rparr>"
  let ?s = "client_store\<lparr>chans := [?c]\<rparr>"
  have h1: "run [CallNewSCChan, CallMInterface (Some 0), CallFInterface (Some 0),
        CallState (Some 0) 200 [''bye'']] empty_store = Inr ?s"
    by (simp add: client_store_eq empty_store_def NewSCChan_def MInterface_def FInterface_def
          State_def load_def modify_def UnableToStart_def)
  have h2: "?c \<in> set (chans ?s)" by simp
  from followerState_enumerated [OF h1 h2] h1 h2 show ?thesis by simp
qed

text \<open>
  C10. Whatever calls of the package a client has made since its start, the state field
  of every record of the store is \<^verbatim>\<open>UnableToStart\<close>, and a \<^verbatim>\<open>WhatsUp\<close> that returns has
  \<^verbatim>\<open>UnableToStart\<close> as its first component, through any master interface.
\<close>

theorem followerState_always_UnableToStart:
  assumes "run cs empty_store = Inr s"
  shows "(\<forall>c\<in>set (chans s). followerState c = UnableToStart)
         \<and> (\<forall>mInt st d s'. WhatsUp mInt s = Inr ((st, d), s') \<longrightarrow> st = UnableToStart)"
proof -
  from run_all_unable [OF assms empty_all_unable]
  have inv: "\<forall>c\<in>set (chans s). followerState c = UnableToStart"
    by (simp add: all_unable_def list_all_iff)
  have "st = UnableToStart" if "WhatsUp mInt s = Inr ((st, d), s')" for mInt st d s'
  proof -
    from that have "\<exists>p c. load (chans s) p = Inr c \<and> st = followerState c"
      by (auto simp: WhatsUp_def split: sum.splits)
    then obtain p c where "load (chans s) p = Inr c" and st: "st = followerState c"
      by blast
    from load_InrD [OF this(1)] have "c \<in> set (chans s)" by auto
    with inv st show ?thesis by simp
  qed
  with inv show ?thesis by blast
qed

text \<open>
  A client that reports \<^verbatim>\<open>NowActive\<close>, \<^verbatim>\<open>Failed\<close> and \<^verbatim>\<open>NowDead\<close> in turn and then
  queries: the query returns \<^verbatim>\<open>UnableToStart\<close>.
\<close>

theorem followerState_always_UnableToStart_witness:
  "run [CallNewSCChan, CallMInterface (Some 0), CallFInterface (Some 0),
        CallState (Some 0) NowActive [''started''], CallState (Some 0) Failed [],
        CallState (Some 0) NowDead [''stopped'']] empty_store
     = Inr (client_store\<lparr>chans := [\<lparr>followerState = 0, additionalInfo = ''stopped''\<rparr>]\<rparr>)
   \<and> followerState \<lparr>followerState = 0, additionalInfo = ''stopped''\<rparr> = UnableToStart
   \<and> WhatsUp (Some 0)
        (client_store\<lparr>chans := [\<lparr>followerState = 0, additionalInfo = ''stopped''\<rparr>]\<rparr>)
     = Inr ((UnableToStart, ''stopped''),
            client_store\<lparr>chans := [\<lparr>followerState = 0, additionalInfo = ''stopped''\<rparr>]\<rparr>)"
proof -
  let ?c = "\<lparr>followerState = 0, additionalInfo = ''stopped''\<rparr>"
  let ?s = "client_store\<lparr>chans := [?c]\<rparr>"
  have h1: "run [CallNewSCChan, CallMInterface (Some 0), CallFInterface (Some 0),
        CallState (Some 0) NowActive [''started''], CallState (Some 0) Failed [],
        CallState (Some 0) NowDead [''stopped'']] empty_store = Inr ?s"
    by (simp add: client_store_eq empty_store_def NewSCChan_def MInterface_def FInterface_def
          State_def load_def modify_def UnableToStart_def)
  have h2: "WhatsUp (Some 0) ?s = Inr ((followerState ?c, ''stopped''), ?s)"
    by (simp add: client_store_eq WhatsUp_def load_def)
  from followerState_always_UnableToStart [OF h1] have
    "\<forall>c\<in>set (chans ?s). followerState c = UnableToStart"
    and "\<forall>mInt st d s'. WhatsUp mInt ?s = Inr ((st, d), s') \<longrightarrow> st = UnableToStart"
    by blast+
  from this(1) have c: "followerState ?c = UnableToStart" by simp
  with h1 h2 show ?thesis by simp
qed

end
